theory Spec2Isabelle
  imports Complex_Main "HOL-Library.Word" "HOL-Library.Sublist"
begin

section \<open>Strings of UTF-16 code units\<close>

text \<open>
  A JavaScript string is a sequence of 16-bit code units; \<open>length\<close>, \<open>split\<close>,
  \<open>includes\<close>, \<open>trim\<close> and a regular expression without the \<open>u\<close> flag all work on
  code units. The converter handles Chinese text, so the model keeps all 16 bits.
  \<open>js\<close> writes an ASCII literal as such a string.
\<close>

type_synonym code_unit = "16 word"
type_synonym jstring = "code_unit list"

definition js :: "string \<Rightarrow> jstring" where
  "js s = map of_char s"

definition LF :: code_unit where "LF = 0x0A"                \<comment> \<open>\<open>'\n'\<close>\<close>
definition EQUALS :: code_unit where "EQUALS = 0x3D"        \<comment> \<open>\<open>'='\<close>\<close>
definition DOLLAR :: code_unit where "DOLLAR = 0x24"        \<comment> \<open>\<open>'$'\<close>\<close>
definition AMPERSAND :: code_unit where "AMPERSAND = 0x26"  \<comment> \<open>\<open>'&'\<close>\<close>
definition BACKTICK :: code_unit where "BACKTICK = 0x60"    \<comment> \<open>the grave accent\<close>
definition APOSTROPHE :: code_unit where "APOSTROPHE = 0x27"
definition BACKSLASH :: code_unit where "BACKSLASH = 0x5C"

subsection \<open>\<open>String.prototype.trim\<close>\<close>

text \<open>
  \<open>trim\<close> removes WhiteSpace and LineTerminator code units from both ends: TAB, LF, VT,
  FF, CR, SP, NBSP, U+1680, U+2000 to U+200A, LS, PS, U+202F, U+205F, U+3000 and the
  byte order mark U+FEFF.
\<close>

definition isWhiteSpace :: "code_unit \<Rightarrow> bool" where
  "isWhiteSpace c \<longleftrightarrow>
     c \<in> set [0x09, 0x0A, 0x0B, 0x0C, 0x0D, 0x20, 0xA0, 0x1680,
              0x2000, 0x2001, 0x2002, 0x2003, 0x2004, 0x2005, 0x2006, 0x2007, 0x2008,
              0x2009, 0x200A, 0x2028, 0x2029, 0x202F, 0x205F, 0x3000, 0xFEFF]"

definition String_trim :: "jstring \<Rightarrow> jstring" where
  "String_trim s = rev (dropWhile isWhiteSpace (rev (dropWhile isWhiteSpace s)))"

subsection \<open>\<open>String.prototype.split\<close> and \<open>includes\<close> with a one-unit argument\<close>

text \<open>
  \<open>s.split(sep)\<close> without a limit cuts at every occurrence of the separator; the
  empty string gives one empty piece, and a separator at the end gives a last empty
  piece.
\<close>

fun String_split :: "code_unit \<Rightarrow> jstring \<Rightarrow> jstring list" where
  "String_split sep [] = [[]]"
| "String_split sep (c # cs) =
     (if c = sep then [] # String_split sep cs
      else (case String_split sep cs of
              [] \<Rightarrow> [[c]]
            | p # ps \<Rightarrow> (c # p) # ps))"

definition String_includes :: "code_unit \<Rightarrow> jstring \<Rightarrow> bool" where
  "String_includes c s \<longleftrightarrow> c \<in> set s"

text \<open>Reading an array element: \<open>undefined\<close> (here \<open>None\<close>) beyond the end.\<close>

definition element :: "'a list \<Rightarrow> nat \<Rightarrow> 'a option" where
  "element xs i = (if i < length xs then Some (xs ! i) else None)"

section \<open>The rule parser (\<open>parsePatches\<close>)\<close>

record PatchRule =
  old :: jstring
  newVal :: jstring

text \<open>
  \<open>x?.trim() || ''\<close>: the empty string when \<open>x\<close> is undefined, and when the trimmed
  string is empty (the empty string is falsy).
\<close>

definition trim_or_empty :: "jstring option \<Rightarrow> jstring" where
  "trim_or_empty x =
     (case x of
        None \<Rightarrow> []
      | Some s \<Rightarrow> (if String_trim s = [] then [] else String_trim s))"

text \<open>
  The body of the \<open>map\<close> callback: \<open>const [old, newVal] = line.split('=')\<close> binds the
  first two pieces of the split and ignores every further piece.
\<close>

definition parseLine :: "jstring \<Rightarrow> PatchRule" where
  "parseLine line =
     (let pieces = String_split EQUALS line
      in \<lparr>old = trim_or_empty (element pieces 0),
          newVal = trim_or_empty (element pieces 1)\<rparr>)"

text \<open>
  \<open>Array.prototype.sort\<close> with a comparator is stable: \<open>a\<close> stays before \<open>b\<close> unless
  the comparator puts \<open>b\<close> first (\<open>cmp a b > 0\<close>). The model is the stable insertion
  sort; the comparator of the source is \<open>(a, b) => b.old.length - a.old.length\<close>.
\<close>

fun insert_by :: "('a \<Rightarrow> 'a \<Rightarrow> int) \<Rightarrow> 'a \<Rightarrow> 'a list \<Rightarrow> 'a list" where
  "insert_by cmp x [] = [x]"
| "insert_by cmp x (y # ys) =
     (if cmp x y \<le> 0 then x # y # ys else y # insert_by cmp x ys)"

fun Array_sort :: "('a \<Rightarrow> 'a \<Rightarrow> int) \<Rightarrow> 'a list \<Rightarrow> 'a list" where
  "Array_sort cmp [] = []"
| "Array_sort cmp (x # xs) = insert_by cmp x (Array_sort cmp xs)"

definition longestFirst :: "PatchRule \<Rightarrow> PatchRule \<Rightarrow> int" where
  "longestFirst a b = int (length (old b)) - int (length (old a))"

text \<open>The candidate rules in the order of their lines, before sorting.\<close>

definition candidateRules :: "jstring \<Rightarrow> PatchRule list" where
  "candidateRules patchStr =
     filter (\<lambda>rule. old rule \<noteq> [])
       (map parseLine
         (filter (String_includes EQUALS) (String_split LF patchStr)))"

definition parsePatches :: "jstring \<Rightarrow> PatchRule list" where
  "parsePatches patchStr = Array_sort longestFirst (candidateRules patchStr)"

section \<open>The pattern escaper (\<open>escapeRegExp\<close>)\<close>

text \<open>
  The character class of the source, \<open>/[.*+?^${}()|[\]\\]/g\<close>, lists fourteen
  characters; the replacement \<open>'\\$&'\<close> puts a backslash before each one found.
\<close>

definition escapedCharacters :: "code_unit list" where
  "escapedCharacters = js ''.*+?^${}()|[]'' @ [BACKSLASH]"

definition escapeRegExp :: "jstring \<Rightarrow> jstring" where
  "escapeRegExp s =
     concat (map (\<lambda>c. if c \<in> set escapedCharacters then [BACKSLASH, c] else [c]) s)"

section \<open>The pattern-matching engine, on the patterns the applier builds\<close>

text \<open>
  \<open>new RegExp(pattern, 'g')\<close> parses the pattern with the ECMAScript grammar. Without
  the \<open>u\<close> and \<open>i\<close> flags, a code unit that is not a SyntaxCharacter
  (\<open>^ $ \ . * + ? ( ) [ ] { } |\<close>) is a PatternCharacter that matches itself, and a
  backslash followed by a SyntaxCharacter is an IdentityEscape that matches that
  character. \<open>RegExp\<close> returns the sequence of code units such a pattern matches, one
  per atom, and \<open>None\<close> for every other pattern: an assertion, a quantifier, a group,
  a class, any other escape, or a syntax error, none of which is modelled.
\<close>

definition syntaxCharacter :: "code_unit \<Rightarrow> bool" where
  "syntaxCharacter c \<longleftrightarrow>
     c \<in> set [0x5E, 0x24, 0x5C, 0x2E, 0x2A, 0x2B, 0x3F, 0x28, 0x29, 0x5B, 0x5D, 0x7B,
              0x7D, 0x7C]"

fun RegExp :: "jstring \<Rightarrow> jstring option" where
  "RegExp [] = Some []"
| "RegExp (c # cs) =
     (if c = BACKSLASH then
        (case cs of
           [] \<Rightarrow> None
         | d # ds \<Rightarrow> (if syntaxCharacter d then map_option ((#) d) (RegExp ds) else None))
      else if syntaxCharacter c then None
      else map_option ((#) c) (RegExp cs))"

text \<open>
  The matcher of such a regular expression at one position of the input: every atom
  consumes one code unit equal to it. The result is the input left after the match.
\<close>

fun matchAt :: "jstring \<Rightarrow> jstring \<Rightarrow> jstring option" where
  "matchAt [] input = Some input"
| "matchAt (a # as) [] = None"
| "matchAt (a # as) (c # cs) = (if a = c then matchAt as cs else None)"

text \<open>\<open>regex.test(input)\<close>: a match at some position, searched from the left.\<close>

fun RegExp_test :: "jstring \<Rightarrow> jstring \<Rightarrow> bool" where
  "RegExp_test regex [] = (matchAt regex [] \<noteq> None)"
| "RegExp_test regex (c # cs) = (matchAt regex (c # cs) \<noteq> None \<or> RegExp_test regex cs)"

subsection \<open>\<open>String.prototype.replace\<close> with a global regular expression\<close>

text \<open>
  The replacement string is a template (GetSubstitution). The regular expressions
  above have no capture groups, so the only references are \<open>$$\<close> (a dollar sign),
  \<open>$&\<close> (the matched text), the dollar sign followed by a grave accent (the input
  before the match) and \<open>$'\<close> (the input after the match); a dollar sign
  followed by anything else, digits and \<open><\<close> included, stands for itself.
\<close>

fun getSubstitution :: "jstring \<Rightarrow> jstring \<Rightarrow> jstring \<Rightarrow> jstring \<Rightarrow> jstring" where
  "getSubstitution matched preceding following [] = []"
| "getSubstitution matched preceding following [c] = [c]"
| "getSubstitution matched preceding following (c # d # template) =
     (if c = DOLLAR \<and> d = DOLLAR then DOLLAR # getSubstitution matched preceding following template
      else if c = DOLLAR \<and> d = AMPERSAND then matched @ getSubstitution matched preceding following template
      else if c = DOLLAR \<and> d = BACKTICK then preceding @ getSubstitution matched preceding following template
      else if c = DOLLAR \<and> d = APOSTROPHE then following @ getSubstitution matched preceding following template
      else c # getSubstitution matched preceding following (d # template))"

text \<open>
  The global replace looks for the leftmost match at or after the current position,
  appends the input skipped and the expanded template, and goes on after the match;
  after an empty match it advances by one code unit, so the empty pattern matches once
  at every position, the end included. \<open>preceding\<close> is the input already passed.
\<close>

function replaceFrom :: "jstring \<Rightarrow> jstring \<Rightarrow> jstring \<Rightarrow> jstring \<Rightarrow> jstring" where
  "replaceFrom regex template preceding [] =
     (if regex = [] then getSubstitution [] preceding [] template else [])"
| "replaceFrom regex template preceding (c # cs) =
     (if regex = [] then
        getSubstitution [] preceding (c # cs) template
          @ c # replaceFrom regex template (preceding @ [c]) cs
      else
        (case matchAt regex (c # cs) of
           Some rest \<Rightarrow>
             getSubstitution regex preceding rest template
               @ replaceFrom regex template (preceding @ regex) rest
         | None \<Rightarrow> c # replaceFrom regex template (preceding @ [c]) cs))"
  by pat_completeness auto
termination
proof (relation "measure (\<lambda>(regex, template, preceding, input). length input)")
  show "wf (measure (\<lambda>(regex, template, preceding, input). length input))"
    by simp
next
  fix regex template preceding :: jstring and c :: code_unit and cs :: jstring
  show "((regex, template, preceding @ [c], cs), (regex, template, preceding, c # cs))
          \<in> measure (\<lambda>(regex, template, preceding, input). length input)"
    by simp
next
  fix regex template preceding :: jstring and c :: code_unit and cs rest :: jstring
  assume nonempty: "regex \<noteq> []" and matched: "matchAt regex (c # cs) = Some rest"
  have "matchAt r i = Some rest \<Longrightarrow> i = r @ rest" for r i
    by (induction r i rule: matchAt.induct) (auto split: if_splits)
  with matched have "c # cs = regex @ rest" by blast
  with nonempty have "length rest < length (c # cs)"
    by (cases regex) auto
  then show "((regex, template, preceding @ regex, rest), (regex, template, preceding, c # cs))
          \<in> measure (\<lambda>(regex, template, preceding, input). length input)"
    by simp
next
  fix regex template preceding :: jstring and c :: code_unit and cs :: jstring
  show "((regex, template, preceding @ [c], cs), (regex, template, preceding, c # cs))
          \<in> measure (\<lambda>(regex, template, preceding, input). length input)"
    by simp
qed

definition String_replace :: "jstring \<Rightarrow> jstring \<Rightarrow> jstring \<Rightarrow> jstring" where
  "String_replace regex template input = replaceFrom regex template [] input"

section \<open>The patch applier (\<open>applyCustomPatches\<close>)\<close>

text \<open>
  The \<open>forEach\<close> loop updates \<open>result\<close> rule by rule. \<open>None\<close> would mean that an
  escaped pattern is not one of the regular expressions modelled above.
\<close>

fun applyCustomPatches :: "jstring \<Rightarrow> PatchRule list \<Rightarrow> jstring option" where
  "applyCustomPatches result [] = Some result"
| "applyCustomPatches result (rule # patchRules) =
     (case RegExp (escapeRegExp (old rule)) of
        None \<Rightarrow> None
      | Some regex \<Rightarrow>
          applyCustomPatches (String_replace regex (newVal rule) result) patchRules)"

section \<open>The conversion adapter (\<open>convertText\<close>)\<close>

datatype ConversionType = TO_SIMPLIFIED | TO_TRADITIONAL

datatype variant = tw | cn

text \<open>What a JavaScript call can throw, or an asynchronous one reject with.\<close>

datatype exn =
    ReferenceError
  | TypeError
  | SyntaxError
  | Error string
  | Rejected

text \<open>
  The conversion engine is external: \<open>OpenCC.Converter({from, to})\<close> returns a function
  from text to text, which may throw. The global may be missing; the first utility
  module reads it as a property of \<open>window\<close> or \<open>globalThis\<close> (a missing property reads
  as \<open>undefined\<close>), the second one through the bare identifier \<open>OpenCC\<close>, declared but
  never defined by the module (reading an unbound identifier throws a ReferenceError).
\<close>

type_synonym engine = "variant \<Rightarrow> variant \<Rightarrow> jstring \<Rightarrow> exn + jstring"

record globals =
  window_OpenCC :: "engine option"
  globalThis_OpenCC :: "engine option"

datatype console_entry = Warn_OpenCC_not_found

definition getOpenCC :: "globals \<Rightarrow> engine option" where
  "getOpenCC g =
     (case window_OpenCC g of
        Some engine \<Rightarrow> Some engine
      | None \<Rightarrow> globalThis_OpenCC g)"

text \<open>
  The result of the asynchronous function is the console output and either the
  rejection (\<open>Inl\<close>) or the value the promise resolves to (\<open>Inr\<close>).
\<close>

definition convertText ::
    "globals \<Rightarrow> jstring \<Rightarrow> ConversionType \<Rightarrow> console_entry list \<times> (exn + jstring)" where
  "convertText g input type =
     (if input = [] then ([], Inr [])
      else
        (case getOpenCC g of
           None \<Rightarrow> ([Warn_OpenCC_not_found], Inr input)
         | Some OpenCC \<Rightarrow>
             ([], OpenCC (if type = TO_SIMPLIFIED then tw else cn)
                         (if type = TO_SIMPLIFIED then cn else tw) input)))"

text \<open>The same function in the second utility module, which has no lookup step.\<close>

definition convertText_declared ::
    "globals \<Rightarrow> jstring \<Rightarrow> ConversionType \<Rightarrow> console_entry list \<times> (exn + jstring)" where
  "convertText_declared g input type =
     (if input = [] then ([], Inr [])
      else
        (case globalThis_OpenCC g of
           None \<Rightarrow> ([], Inl ReferenceError)
         | Some OpenCC \<Rightarrow>
             ([], OpenCC (if type = TO_SIMPLIFIED then tw else cn)
                         (if type = TO_SIMPLIFIED then cn else tw) input)))"

section \<open>Cloud synchronisation (\<open>syncFromCloud\<close>)\<close>

text \<open>
  The values \<open>JSON.parse\<close> can return. A number is a double that is not NaN; the code
  only asks whether it is zero. An object is the list of its own properties, every key
  once.
\<close>

datatype jsnumber = Finite real | Infinity | MinusInfinity

datatype jsvalue =
    JNull
  | JBool bool
  | JNumber jsnumber
  | JString jstring
  | JArray "jsvalue list"
  | JObject "(jstring \<times> jsvalue) list"

fun truthy :: "jsvalue \<Rightarrow> bool" where
  "truthy JNull = False"
| "truthy (JBool b) = b"
| "truthy (JNumber n) = (n \<noteq> Finite 0)"
| "truthy (JString s) = (s \<noteq> [])"
| "truthy (JArray xs) = True"
| "truthy (JObject props) = True"

text \<open>
  \<open>data.patches\<close>: a TypeError on \<open>null\<close>; the own property of an object, or
  \<open>undefined\<close> (\<open>None\<close>) when it has none of that name; \<open>undefined\<close> on an array, a
  string, a number or a boolean, whose prototypes have no such property.
\<close>

fun get_patches :: "jsvalue \<Rightarrow> exn + jsvalue option" where
  "get_patches JNull = Inl TypeError"
| "get_patches (JObject props) = Inr (map_of props (js ''patches''))"
| "get_patches data = Inr None"

text \<open>
  Lines 50 to 56 of the component: \<open>JSON.parse\<close> is a parameter that returns \<open>None\<close>
  where it throws a SyntaxError. The inner \<open>catch\<close> takes every exception of the inner
  \<open>try\<close> block to the raw text.
\<close>

definition finalPatches :: "(jstring \<Rightarrow> jsvalue option) \<Rightarrow> jstring \<Rightarrow> jsvalue" where
  "finalPatches JSON_parse body =
     (case JSON_parse body of
        None \<Rightarrow> JString body
      | Some data \<Rightarrow>
          (case get_patches data of
             Inl e \<Rightarrow> JString body
           | Inr None \<Rightarrow> JString body
           | Inr (Some v) \<Rightarrow> (if truthy v then v else JString body)))"

text \<open>
  The response of \<open>fetch\<close>: its \<open>ok\<close> flag and what \<open>response.text()\<close> settles to.
  \<open>fetch\<close> itself may reject (a request exception).
\<close>

record Response =
  ok :: bool
  bodyText :: "exn + jstring"

text \<open>
  The body of the outer \<open>try\<close> block up to the value handed to \<open>setPatches\<close>: the
  fetch of the remote rules. \<open>Inl\<close> is the exception that reaches the \<open>catch\<close> clause.
\<close>

definition fetchRemoteRules ::
    "(jstring \<Rightarrow> jsvalue option) \<Rightarrow> exn + Response \<Rightarrow> exn + jsvalue" where
  "fetchRemoteRules JSON_parse fetched =
     (case fetched of
        Inl e \<Rightarrow> Inl e
      | Inr response \<Rightarrow>
          (if \<not> ok response then Inl (Error ''Network response was not ok'')
           else
             (case bodyText response of
                Inl e \<Rightarrow> Inl e
              | Inr body \<Rightarrow> Inr (finalPatches JSON_parse body))))"

text \<open>
  The state of the component that \<open>syncFromCloud\<close> writes: the patch text and the
  toasts. The three messages are string literals of the source, named here by what
  they say; the identifier of a toast is a time stamp plus a random number, a
  parameter of the model.
\<close>

datatype toast_type = success | error | info

datatype toast_text = No_cloud_url_configured | Cloud_download_succeeded | Cloud_download_failed

record ToastMessage =
  id_toast :: real
  type_toast :: toast_type
  message :: toast_text

record AppState =
  patches :: jsvalue
  toasts :: "ToastMessage list"

definition addToast :: "real \<Rightarrow> toast_text \<Rightarrow> toast_type \<Rightarrow> AppState \<Rightarrow> AppState" where
  "addToast newId msg ty st =
     st\<lparr>toasts := toasts st @ [\<lparr>id_toast = newId, type_toast = ty, message = msg\<rparr>]\<rparr>"

text \<open>
  \<open>targetUrl\<close> is \<open>None\<close> for \<open>null\<close>; the empty string is falsy as well. \<open>fetch\<close> gives
  the outcome of the request to a URL.
\<close>

definition syncFromCloud ::
    "(jstring \<Rightarrow> jsvalue option) \<Rightarrow> (jstring \<Rightarrow> exn + Response) \<Rightarrow> real \<Rightarrow>
       jstring option \<Rightarrow> bool \<Rightarrow> AppState \<Rightarrow> AppState" where
  "syncFromCloud JSON_parse fetch newId targetUrl silent st =
     (if targetUrl = None \<or> targetUrl = Some [] then
        (if \<not> silent then addToast newId No_cloud_url_configured info st else st)
      else
        (case fetchRemoteRules JSON_parse (fetch (the targetUrl)) of
           Inr final \<Rightarrow>
             (let st' = st\<lparr>patches := final\<rparr>
              in if \<not> silent then addToast newId Cloud_download_succeeded success st'
                 else st')
         | Inl e \<Rightarrow>
             (if \<not> silent then addToast newId Cloud_download_failed error st else st)))"

section \<open>Notions used by the properties\<close>

text \<open>A string without white space at either end.\<close>

definition trimmed :: "jstring \<Rightarrow> bool" where
  "trimmed s \<longleftrightarrow> s = [] \<or> (\<not> isWhiteSpace (hd s) \<and> \<not> isWhiteSpace (last s))"

text \<open>Some rule's \<open>old\<close> occurs in the string as a contiguous substring.\<close>

definition containsOld :: "PatchRule list \<Rightarrow> jstring \<Rightarrow> bool" where
  "containsOld rules s \<longleftrightarrow> list_ex (\<lambda>rule. sublist (old rule) s) rules"

text \<open>Some rule's \<open>newVal\<close> contains some rule's \<open>old\<close>.\<close>

definition reintroducesOld :: "PatchRule list \<Rightarrow> bool" where
  "reintroducesOld rules \<longleftrightarrow> list_ex (\<lambda>rule. containsOld rules (newVal rule)) rules"

text \<open>\<open>apply(apply(text, rules), rules)\<close>.\<close>

definition applyTwice :: "jstring \<Rightarrow> PatchRule list \<Rightarrow> jstring option" where
  "applyTwice input rules =
     (case applyCustomPatches input rules of
        None \<Rightarrow> None
      | Some once \<Rightarrow> applyCustomPatches once rules)"

text \<open>
  No occurrence of \<open>pattern\<close> starts inside \<open>segment\<close> when \<open>segment\<close> is followed by
  \<open>following\<close>. With \<open>following = pattern\<close>: in \<open>segment @ pattern\<close> the pattern occurs
  at the end and nowhere before, so a scan from the left skips \<open>segment\<close> and finds its
  first match right after it.
\<close>

fun noMatchStartsIn :: "jstring \<Rightarrow> jstring \<Rightarrow> jstring \<Rightarrow> bool" where
  "noMatchStartsIn pattern [] following = True"
| "noMatchStartsIn pattern (c # segment) following =
     (\<not> prefix pattern (c # segment @ following)
      \<and> noMatchStartsIn pattern segment following)"

text \<open>No OpenCC global anywhere.\<close>

definition engineAbsent :: globals where
  "engineAbsent = \<lparr>window_OpenCC = None, globalThis_OpenCC = None\<rparr>"

text \<open>
  A failed request: \<open>fetch\<close> rejected, the response status is not a success, or the
  body could not be read.
\<close>

definition requestFailed :: "exn + Response \<Rightarrow> bool" where
  "requestFailed fetched =
     (case fetched of
        Inl e \<Rightarrow> True
      | Inr response \<Rightarrow> \<not> ok response \<or> isl (bodyText response))"

section \<open>Properties\<close>

lemmas code_unit_defs =
  LF_def EQUALS_def DOLLAR_def AMPERSAND_def BACKTICK_def APOSTROPHE_def BACKSLASH_def

subsection \<open>Evaluation of literals\<close>

lemmas parse_defs =
  parsePatches_def candidateRules_def parseLine_def js_def code_unit_defs
  String_includes_def element_def trim_or_empty_def String_trim_def isWhiteSpace_def

lemmas apply_defs =
  js_def escapeRegExp_def escapedCharacters_def code_unit_defs syntaxCharacter_def
  String_replace_def

subsection \<open>The stable sort\<close>

lemma set_insert_by: "set (insert_by cmp x ys) = insert x (set ys)"
  by (induction ys) auto

lemma set_Array_sort: "set (Array_sort cmp xs) = set xs"
  by (induction xs) (simp_all add: set_insert_by)

lemma sorted_insert_by_longestFirst:
  "sorted_wrt (\<lambda>a b. length (old b) \<le> length (old a)) ys \<Longrightarrow>
   sorted_wrt (\<lambda>a b. length (old b) \<le> length (old a)) (insert_by longestFirst x ys)"
  by (induction ys) (auto simp: set_insert_by longestFirst_def)

lemma sorted_Array_sort_longestFirst:
  "sorted_wrt (\<lambda>a b. length (old b) \<le> length (old a)) (Array_sort longestFirst xs)"
  by (induction xs) (simp_all add: sorted_insert_by_longestFirst)

lemma filter_insert_by_longestFirst:
  "filter (\<lambda>r. length (old r) = n) (insert_by longestFirst x ys) =
     (if length (old x) = n then x # filter (\<lambda>r. length (old r) = n) ys
      else filter (\<lambda>r. length (old r) = n) ys)"
  by (induction ys) (auto simp: longestFirst_def)

lemma filter_Array_sort_longestFirst:
  "filter (\<lambda>r. length (old r) = n) (Array_sort longestFirst xs) =
     filter (\<lambda>r. length (old r) = n) xs"
  by (induction xs) (simp_all add: filter_insert_by_longestFirst)

subsection \<open>Trimming\<close>

lemma last_dropWhile: "dropWhile P xs \<noteq> [] \<Longrightarrow> last (dropWhile P xs) = last xs"
  by (induction xs) (auto split: if_splits)

lemma trimmed_String_trim: "trimmed (String_trim s)"
proof (cases "String_trim s = []")
  case True
  then show ?thesis by (simp add: trimmed_def)
next
  case False
  define t where "t = dropWhile isWhiteSpace s"
  define u where "u = dropWhile isWhiteSpace (rev t)"
  have res: "String_trim s = rev u" by (simp add: String_trim_def t_def u_def)
  with False have u: "u \<noteq> []" by simp
  then have t: "t \<noteq> []" by (auto simp: u_def)
  have "\<not> isWhiteSpace (hd u)" using u unfolding u_def by (rule hd_dropWhile)
  then have l: "\<not> isWhiteSpace (last (rev u))" using u by (simp add: last_rev)
  have "last u = last (rev t)" using u unfolding u_def by (rule last_dropWhile)
  then have "hd (rev u) = hd t" using u t by (simp add: hd_rev last_rev)
  moreover have "\<not> isWhiteSpace (hd t)" using t unfolding t_def by (rule hd_dropWhile)
  ultimately show ?thesis using l by (simp add: trimmed_def res)
qed

lemma trimmed_trim_or_empty: "trimmed (trim_or_empty x)"
  by (cases x) (simp_all add: trim_or_empty_def trimmed_String_trim, simp add: trimmed_def)

lemma trimmed_parseLine: "trimmed (old (parseLine line)) \<and> trimmed (newVal (parseLine line))"
  by (simp add: parseLine_def Let_def trimmed_trim_or_empty)

subsection \<open>Escaped patterns and their matches\<close>

lemma escaped_iff_syntaxCharacter: "c \<in> set escapedCharacters \<longleftrightarrow> syntaxCharacter c"
  by (auto simp: escapedCharacters_def syntaxCharacter_def js_def BACKSLASH_def)

lemma syntaxCharacter_BACKSLASH: "syntaxCharacter BACKSLASH"
  by (simp add: syntaxCharacter_def BACKSLASH_def)

lemma RegExp_escapeRegExp: "RegExp (escapeRegExp s) = Some s"
proof (induction s)
  case Nil
  then show ?case by (simp add: escapeRegExp_def)
next
  case (Cons c s)
  have step: "escapeRegExp (c # s) =
      (if syntaxCharacter c then [BACKSLASH, c] else [c]) @ escapeRegExp s"
    by (simp add: escapeRegExp_def escaped_iff_syntaxCharacter)
  show ?case
  proof (cases "syntaxCharacter c")
    case True
    with Cons step show ?thesis by simp
  next
    case False
    then have "c \<noteq> BACKSLASH" using syntaxCharacter_BACKSLASH by auto
    with False Cons step show ?thesis by simp
  qed
qed

lemma matchAt_prefix:
  "matchAt regex input = (if prefix regex input then Some (drop (length regex) input) else None)"
  by (induction regex input rule: matchAt.induct) auto

lemma RegExp_test_sublist: "RegExp_test regex input \<longleftrightarrow> sublist regex input"
proof (induction input)
  case Nil
  then show ?case by (cases regex) (simp_all add: matchAt_prefix)
next
  case (Cons c cs)
  show ?case
  proof (cases regex)
    case Nil
    then show ?thesis by simp
  next
    case (Cons a as)
    with Cons.IH show ?thesis
      by (auto simp: matchAt_prefix sublist_Cons_right)
  qed
qed

lemma applyCustomPatches_foldl:
  "applyCustomPatches input patchRules =
     Some (foldl (\<lambda>result rule. String_replace (old rule) (newVal rule) result) input patchRules)"
  by (induction patchRules arbitrary: input) (simp_all add: RegExp_escapeRegExp)

lemma replaceFrom_no_occurrence:
  "\<not> sublist regex input \<Longrightarrow> replaceFrom regex template preceding input = input"
proof (induction regex template preceding input rule: replaceFrom.induct)
  case (1 regex template preceding)
  then show ?case by (cases regex) auto
next
  case (2 regex template preceding c cs)
  from "2.prems" have ne: "regex \<noteq> []" by auto
  from "2.prems" have np: "\<not> prefix regex (c # cs)" and ns: "\<not> sublist regex cs"
    using ne by (auto simp: sublist_Cons_right)
  from np have m: "matchAt regex (c # cs) = None" by (simp add: matchAt_prefix)
  have "replaceFrom regex template (preceding @ [c]) cs = cs"
    using "2.IH"(2) ne m ns by blast
  with ne m show ?case by simp
qed

subsection \<open>The parser\<close>

text \<open>
  Claim C2: a line with at least one \<open>=\<close> is split at the first \<open>=\<close>, and every further
  \<open>=\<close> stays in \<open>newVal\<close>, so that \<open>a=b=c\<close> gives \<open>old = a\<close>, \<open>newVal = b=c\<close>. The code
  splits at every \<open>=\<close> and keeps the first two pieces: on \<open>a=b=c\<close> it returns
  \<open>newVal = b\<close>, and what follows the second \<open>=\<close> is lost.
\<close>

theorem parsePatches_drops_after_second_equals:
  "parsePatches (js ''a=b=c'') = [\<lparr>old = js ''a'', newVal = js ''b''\<rparr>]"
  by (simp add: parse_defs)

text \<open>
  Claim C3: for every raw rule text the parsed list is sorted by descending length of
  \<open>old\<close>; rules with \<open>old\<close> of the same length keep the order of their lines (for every
  length, the rules of that length are the same sequence before and after sorting);
  every rule has a non-empty \<open>old\<close>, and \<open>old\<close> and \<open>newVal\<close> have no white space at
  either end.
\<close>

theorem parsePatches_sorted_stable_trimmed:
  "sorted_wrt (\<lambda>a b. length (old b) \<le> length (old a)) (parsePatches patchStr)
   \<and> (\<forall>n. filter (\<lambda>r. length (old r) = n) (parsePatches patchStr)
           = filter (\<lambda>r. length (old r) = n) (candidateRules patchStr))
   \<and> (\<forall>r \<in> set (parsePatches patchStr).
          old r \<noteq> [] \<and> trimmed (old r) \<and> trimmed (newVal r))"
proof (intro conjI allI ballI)
  show "sorted_wrt (\<lambda>a b. length (old b) \<le> length (old a)) (parsePatches patchStr)"
    by (simp add: parsePatches_def sorted_Array_sort_longestFirst)
next
  fix n
  show "filter (\<lambda>r. length (old r) = n) (parsePatches patchStr)
           = filter (\<lambda>r. length (old r) = n) (candidateRules patchStr)"
    by (simp add: parsePatches_def filter_Array_sort_longestFirst)
next
  fix r assume "r \<in> set (parsePatches patchStr)"
  then have r: "r \<in> set (candidateRules patchStr)"
    by (simp add: parsePatches_def set_Array_sort)
  then show "old r \<noteq> []" by (simp add: candidateRules_def)
  from r obtain line where "r = parseLine line" by (auto simp: candidateRules_def)
  then show "trimmed (old r)" "trimmed (newVal r)" by (simp_all add: trimmed_parseLine)
qed

theorem parsePatches_sorted_stable_trimmed_witness:
  "\<lparr>old = js ''abc'', newVal = js ''2''\<rparr> \<in> set (parsePatches (js '' b = 1 \<newline>abc=2\<newline>d=3''))
   \<and> old \<lparr>old = js ''abc'', newVal = js ''2''\<rparr> \<noteq> []
   \<and> trimmed (old \<lparr>old = js ''abc'', newVal = js ''2''\<rparr>)
   \<and> trimmed (newVal \<lparr>old = js ''abc'', newVal = js ''2''\<rparr>)"
proof -
  have "\<lparr>old = js ''abc'', newVal = js ''2''\<rparr> \<in> set (parsePatches (js '' b = 1 \<newline>abc=2\<newline>d=3''))"
    by (simp add: parse_defs)
  then show ?thesis
    using parsePatches_sorted_stable_trimmed [of "js '' b = 1 \<newline>abc=2\<newline>d=3''"] by blast
qed

subsection \<open>The escaper\<close>

text \<open>
  Claim C5: for every string \<open>s\<close>, the escaped string used as a pattern matches exactly
  the occurrences of \<open>s\<close> as a literal substring, also when \<open>s\<close> contains the special
  characters: the pattern compiles, it matches at a position exactly when \<open>s\<close> starts
  there (and consumes \<open>s\<close>), and it is found in an input exactly when \<open>s\<close> is a substring
  of it. The escaped form of \<open>a.b*c\<close> is found in \<open>a.b*c\<close> and not in \<open>aXbYc\<close>.
\<close>

theorem escapeRegExp_matches_literal:
  "\<exists>regex. RegExp (escapeRegExp s) = Some regex
     \<and> (\<forall>input. matchAt regex input
           = (if prefix s input then Some (drop (length s) input) else None))
     \<and> (\<forall>input. RegExp_test regex input = sublist s input)
     \<and> (s = js ''a.b*c'' \<longrightarrow>
           RegExp_test regex (js ''a.b*c'') \<and> \<not> RegExp_test regex (js ''aXbYc''))"
proof -
  have "RegExp_test (js ''a.b*c'') (js ''a.b*c'')" "\<not> RegExp_test (js ''a.b*c'') (js ''aXbYc'')"
    by (simp_all add: js_def)
  then show ?thesis
    by (simp add: RegExp_escapeRegExp matchAt_prefix RegExp_test_sublist)
qed

theorem escapeRegExp_matches_literal_witness:
  "escapeRegExp (js ''a.b*c'') = js ''a'' @ [BACKSLASH] @ js ''.b'' @ [BACKSLASH] @ js ''*c''
   \<and> (\<exists>regex. RegExp (escapeRegExp (js ''a.b*c'')) = Some regex
         \<and> RegExp_test regex (js ''a.b*c'') \<and> \<not> RegExp_test regex (js ''aXbYc''))"
proof -
  have "escapeRegExp (js ''a.b*c'') = js ''a'' @ [BACKSLASH] @ js ''.b'' @ [BACKSLASH] @ js ''*c''"
    by (simp add: apply_defs)
  then show ?thesis
    using escapeRegExp_matches_literal [of "js ''a.b*c''"] by blast
qed

subsection \<open>The applier\<close>

text \<open>A template without a dollar sign stands for itself.\<close>

lemma getSubstitution_without_dollar:
  "DOLLAR \<notin> set template \<Longrightarrow> getSubstitution matched preceding following template = template"
  by (induction matched preceding following template rule: getSubstitution.induct) auto

text \<open>
  Claim C1: every occurrence of \<open>old\<close> is replaced by \<open>newVal\<close> inserted as literal
  text, also when \<open>newVal\<close> contains \<open>$\<close>. The code escapes \<open>old\<close> but hands \<open>newVal\<close>
  to \<open>replace\<close> as it is, where it is a replacement template: the rule
  \<open>a\<close> to \<open>$$\<close> turns \<open>a\<close> into a single \<open>$\<close>, and the rule \<open>cat\<close> to \<open>$&s\<close> turns
  \<open>cat\<close> into \<open>cats\<close>.
\<close>

theorem applyCustomPatches_expands_dollar_template:
  "applyCustomPatches (js ''a'') [\<lparr>old = js ''a'', newVal = js ''$$''\<rparr>] = Some (js ''$'')
   \<and> applyCustomPatches (js ''cat'') [\<lparr>old = js ''cat'', newVal = js ''$&s''\<rparr>] = Some (js ''cats'')"
  by (simp add: apply_defs)

text \<open>
  Claim C4: rules are applied one after the other, each on the output of the one
  before (the first rule rewrites the whole text, the remaining rules work on what it
  returns): the rules \<open>AB\<close> to \<open>BA\<close> and \<open>BA\<close> to \<open>CC\<close> turn \<open>AB\<close> into \<open>CC\<close>; and the
  empty rule list returns every text unchanged.
\<close>

theorem applyCustomPatches_chained:
  "(\<forall>input rule rules.
       applyCustomPatches input (rule # rules)
         = applyCustomPatches (String_replace (old rule) (newVal rule) input) rules)
   \<and> applyCustomPatches (js ''AB'')
         [\<lparr>old = js ''AB'', newVal = js ''BA''\<rparr>, \<lparr>old = js ''BA'', newVal = js ''CC''\<rparr>]
       = Some (js ''CC'')
   \<and> (\<forall>input. applyCustomPatches input [] = Some input)"
proof -
  have "applyCustomPatches (js ''AB'')
         [\<lparr>old = js ''AB'', newVal = js ''BA''\<rparr>, \<lparr>old = js ''BA'', newVal = js ''CC''\<rparr>]
       = Some (js ''CC'')"
    by (simp add: apply_defs)
  then show ?thesis by (simp add: RegExp_escapeRegExp)
qed

text \<open>
  One global pass, step by step: the scan skips a segment in which no match starts,
  replaces the match that follows it by the expanded template, and goes on in the
  input after the match, never in the text it has inserted. Every input is a sequence
  of such segments, each followed by the pattern, and a last segment without the
  pattern.
\<close>

lemma prefix_within:
  assumes "length xs \<le> length ys"
  shows "prefix xs (ys @ zs) \<longleftrightarrow> prefix xs ys"
proof
  assume "prefix xs (ys @ zs)"
  then obtain us where "ys @ zs = xs @ us" by (auto simp: prefix_def)
  then have "take (length xs) (ys @ zs) = xs" by simp
  with assms have "take (length xs) ys = xs" by simp
  then show "prefix xs ys" by (metis take_is_prefix)
next
  assume "prefix xs ys"
  then show "prefix xs (ys @ zs)" by (simp add: prefix_prefix)
qed

lemma noMatchStartsIn_longer:
  "noMatchStartsIn pattern segment (pattern @ rest) \<longleftrightarrow> noMatchStartsIn pattern segment pattern"
proof (induction segment)
  case Nil
  then show ?case by simp
next
  case (Cons c segment)
  have "prefix pattern ((c # segment @ pattern) @ rest) \<longleftrightarrow> prefix pattern (c # segment @ pattern)"
    by (rule prefix_within) simp
  with Cons show ?case by simp
qed

lemma replaceFrom_skip:
  "regex \<noteq> [] \<Longrightarrow> noMatchStartsIn regex segment following \<Longrightarrow>
     replaceFrom regex template preceding (segment @ following)
       = segment @ replaceFrom regex template (preceding @ segment) following"
proof (induction segment arbitrary: preceding)
  case Nil
  then show ?case by simp
next
  case (Cons c segment)
  from Cons.prems have "matchAt regex (c # segment @ following) = None"
    by (simp add: matchAt_prefix)
  moreover have "replaceFrom regex template (preceding @ [c]) (segment @ following)
       = segment @ replaceFrom regex template ((preceding @ [c]) @ segment) following"
    using Cons.IH [of "preceding @ [c]"] Cons.prems by simp
  ultimately show ?case using Cons.prems(1) by simp
qed

lemma replaceFrom_match:
  assumes "regex \<noteq> []"
  shows "replaceFrom regex template preceding (regex @ rest)
       = getSubstitution regex preceding rest template
           @ replaceFrom regex template (preceding @ regex) rest"
proof -
  from assms obtain c cs where r: "regex @ rest = c # cs" by (cases regex) auto
  have "matchAt regex (regex @ rest) = Some rest" by (simp add: matchAt_prefix)
  with r assms show ?thesis by (metis (no_types, lifting) replaceFrom.simps(2) option.simps(5))
qed

lemma replaceFrom_first_occurrence:
  assumes "regex \<noteq> []" and "noMatchStartsIn regex segment regex"
  shows "replaceFrom regex template preceding (segment @ regex @ rest)
       = segment @ getSubstitution regex (preceding @ segment) rest template
           @ replaceFrom regex template (preceding @ segment @ regex) rest"
proof -
  from assms(2) have "noMatchStartsIn regex segment (regex @ rest)"
    by (simp add: noMatchStartsIn_longer)
  with assms(1) show ?thesis
    by (simp add: replaceFrom_skip replaceFrom_match)
qed

lemma replaceFrom_segments:
  assumes "regex \<noteq> []" and "DOLLAR \<notin> set template"
    and "\<forall>segment \<in> set segments. noMatchStartsIn regex segment regex"
    and "\<not> sublist regex lastSegment"
  shows "replaceFrom regex template preceding
           (concat (map (\<lambda>segment. segment @ regex) segments) @ lastSegment)
       = concat (map (\<lambda>segment. segment @ template) segments) @ lastSegment"
  using assms(3)
proof (induction segments arbitrary: preceding)
  case Nil
  with assms(4) show ?case by (simp add: replaceFrom_no_occurrence)
next
  case (Cons segment segments)
  then have first: "noMatchStartsIn regex segment regex"
    and others: "\<forall>segment \<in> set segments. noMatchStartsIn regex segment regex"
    by simp_all
  show ?case
    using replaceFrom_first_occurrence [OF assms(1) first,
            of template preceding "concat (map (\<lambda>segment. segment @ regex) segments) @ lastSegment"]
          Cons.IH [OF others, of "preceding @ segment @ regex"] assms(2)
    by (simp add: getSubstitution_without_dollar)
qed

lemma first_occurrence:
  "sublist pattern input \<Longrightarrow>
     \<exists>segment rest. input = segment @ pattern @ rest \<and> noMatchStartsIn pattern segment (pattern @ rest)"
proof (induction input)
  case Nil
  then show ?case by simp
next
  case (Cons c cs)
  show ?case
  proof (cases "prefix pattern (c # cs)")
    case True
    then obtain rest where "c # cs = pattern @ rest" by (auto simp: prefix_def)
    then have "c # cs = [] @ pattern @ rest \<and> noMatchStartsIn pattern [] (pattern @ rest)" by simp
    then show ?thesis by blast
  next
    case False
    with Cons.prems have "sublist pattern cs" by (simp add: sublist_Cons_right)
    with Cons.IH obtain segment rest
      where cs: "cs = segment @ pattern @ rest" and no: "noMatchStartsIn pattern segment (pattern @ rest)"
      by blast
    from False cs no have "c # cs = (c # segment) @ pattern @ rest
        \<and> noMatchStartsIn pattern (c # segment) (pattern @ rest)" by simp
    then show ?thesis by blast
  qed
qed

lemma segments_exist:
  assumes "pattern \<noteq> []"
  shows "\<exists>segments lastSegment.
           input = concat (map (\<lambda>segment. segment @ pattern) segments) @ lastSegment
           \<and> (\<forall>segment \<in> set segments. noMatchStartsIn pattern segment pattern)
           \<and> \<not> sublist pattern lastSegment"
proof (induction input rule: length_induct)
  case (1 input)
  show ?case
  proof (cases "sublist pattern input")
    case False
    then have "input = concat (map (\<lambda>segment. segment @ pattern) []) @ input
        \<and> (\<forall>segment \<in> set []. noMatchStartsIn pattern segment pattern)
        \<and> \<not> sublist pattern input" by simp
    then show ?thesis by blast
  next
    case True
    then obtain segment rest
      where input: "input = segment @ pattern @ rest"
        and no: "noMatchStartsIn pattern segment (pattern @ rest)"
      using first_occurrence by blast
    from input assms have "length rest < length input" by (cases pattern) auto
    with 1 obtain segments lastSegment
      where rest: "rest = concat (map (\<lambda>segment. segment @ pattern) segments) @ lastSegment"
        and all: "\<forall>segment \<in> set segments. noMatchStartsIn pattern segment pattern"
        and last: "\<not> sublist pattern lastSegment"
      by blast
    from no have "noMatchStartsIn pattern segment pattern" by (simp add: noMatchStartsIn_longer)
    with input rest all last
    have "input = concat (map (\<lambda>segment. segment @ pattern) (segment # segments)) @ lastSegment
        \<and> (\<forall>segment \<in> set (segment # segments). noMatchStartsIn pattern segment pattern)
        \<and> \<not> sublist pattern lastSegment" by simp
    then show ?thesis by blast
  qed
qed

lemma applyCustomPatches_single:
  "applyCustomPatches input [rule] = Some (String_replace (old rule) (newVal rule) input)"
  by (simp add: RegExp_escapeRegExp)

text \<open>
  Claim C10: each rule is applied in exactly one global pass over the current text, so
  a rule whose \<open>newVal\<close> contains its \<open>old\<close> does not apply to its own output. For every
  text and rule list the applier returns a result, the text after one global
  replacement per rule in the order of the list. For a rule with a non-empty \<open>old\<close>:
  every text is a sequence of segments in which \<open>old\<close> occurs at the end and nowhere
  before, and a last segment without \<open>old\<close>; when \<open>newVal\<close> has no dollar sign, the
  result is the same sequence with \<open>newVal\<close> in the place of every one of these
  occurrences and nothing else changed, whether or not \<open>newVal\<close> contains \<open>old\<close>; for
  any \<open>newVal\<close>, a text with one occurrence of \<open>old\<close> gets the expanded template in
  its place, once; so \<open>old\<close> itself becomes \<open>newVal\<close>, and the rule \<open>a\<close> to \<open>aa\<close> turns
  \<open>a\<close> into \<open>aa\<close>.
\<close>

theorem applyCustomPatches_one_pass_per_rule:
  "(\<exists>result. applyCustomPatches input patchRules = Some result)
   \<and> applyCustomPatches input patchRules
       = Some (foldl (\<lambda>result rule. String_replace (old rule) (newVal rule) result)
                 input patchRules)
   \<and> (old rule \<noteq> [] \<longrightarrow>
        (\<exists>segments lastSegment.
            input = concat (map (\<lambda>segment. segment @ old rule) segments) @ lastSegment
            \<and> (\<forall>segment \<in> set segments. noMatchStartsIn (old rule) segment (old rule))
            \<and> \<not> sublist (old rule) lastSegment))
   \<and> (old rule \<noteq> [] \<and> DOLLAR \<notin> set (newVal rule)
        \<and> (\<forall>segment \<in> set segments. noMatchStartsIn (old rule) segment (old rule))
        \<and> \<not> sublist (old rule) lastSegment \<longrightarrow>
        applyCustomPatches
            (concat (map (\<lambda>segment. segment @ old rule) segments) @ lastSegment) [rule]
          = Some (concat (map (\<lambda>segment. segment @ newVal rule) segments) @ lastSegment))
   \<and> (old rule \<noteq> [] \<and> noMatchStartsIn (old rule) segment (old rule)
        \<and> \<not> sublist (old rule) rest \<longrightarrow>
        applyCustomPatches (segment @ old rule @ rest) [rule]
          = Some (segment @ getSubstitution (old rule) segment rest (newVal rule) @ rest))
   \<and> (old rule \<noteq> [] \<and> DOLLAR \<notin> set (newVal rule) \<longrightarrow>
        applyCustomPatches (old rule) [rule] = Some (newVal rule))
   \<and> applyCustomPatches (js ''a'') [\<lparr>old = js ''a'', newVal = js ''aa''\<rparr>] = Some (js ''aa'')"
proof (intro conjI impI)
  show "\<exists>result. applyCustomPatches input patchRules = Some result"
    by (simp add: applyCustomPatches_foldl)
next
  show "applyCustomPatches input patchRules
       = Some (foldl (\<lambda>result rule. String_replace (old rule) (newVal rule) result)
                 input patchRules)"
    by (rule applyCustomPatches_foldl)
next
  assume "old rule \<noteq> []"
  then show "\<exists>segments lastSegment.
            input = concat (map (\<lambda>segment. segment @ old rule) segments) @ lastSegment
            \<and> (\<forall>segment \<in> set segments. noMatchStartsIn (old rule) segment (old rule))
            \<and> \<not> sublist (old rule) lastSegment"
    by (rule segments_exist)
next
  assume "old rule \<noteq> [] \<and> DOLLAR \<notin> set (newVal rule)
        \<and> (\<forall>segment \<in> set segments. noMatchStartsIn (old rule) segment (old rule))
        \<and> \<not> sublist (old rule) lastSegment"
  then show "applyCustomPatches
            (concat (map (\<lambda>segment. segment @ old rule) segments) @ lastSegment) [rule]
          = Some (concat (map (\<lambda>segment. segment @ newVal rule) segments) @ lastSegment)"
    by (simp del: applyCustomPatches.simps
          add: applyCustomPatches_single String_replace_def replaceFrom_segments)
next
  assume a: "old rule \<noteq> [] \<and> noMatchStartsIn (old rule) segment (old rule)
        \<and> \<not> sublist (old rule) rest"
  then have "replaceFrom (old rule) (newVal rule) [] (segment @ old rule @ rest)
      = segment @ getSubstitution (old rule) ([] @ segment) rest (newVal rule)
          @ replaceFrom (old rule) (newVal rule) ([] @ segment @ old rule) rest"
    by (intro replaceFrom_first_occurrence) simp_all
  with a show "applyCustomPatches (segment @ old rule @ rest) [rule]
          = Some (segment @ getSubstitution (old rule) segment rest (newVal rule) @ rest)"
    by (simp del: applyCustomPatches.simps
          add: applyCustomPatches_single String_replace_def replaceFrom_no_occurrence)
next
  assume a: "old rule \<noteq> [] \<and> DOLLAR \<notin> set (newVal rule)"
  then have "replaceFrom (old rule) (newVal rule) [] (old rule @ [])
      = getSubstitution (old rule) [] [] (newVal rule)
          @ replaceFrom (old rule) (newVal rule) ([] @ old rule) []"
    by (intro replaceFrom_match) simp
  with a show "applyCustomPatches (old rule) [rule] = Some (newVal rule)"
    by (simp del: applyCustomPatches.simps
          add: applyCustomPatches_single String_replace_def getSubstitution_without_dollar)
next
  show "applyCustomPatches (js ''a'') [\<lparr>old = js ''a'', newVal = js ''aa''\<rparr>] = Some (js ''aa'')"
    by (simp add: apply_defs)
qed

theorem applyCustomPatches_one_pass_per_rule_witness:
  "old \<lparr>old = js ''a'', newVal = js ''aa''\<rparr> \<noteq> []
   \<and> DOLLAR \<notin> set (newVal \<lparr>old = js ''a'', newVal = js ''aa''\<rparr>)
   \<and> noMatchStartsIn (js ''a'') (js ''x'') (js ''a'')
   \<and> noMatchStartsIn (js ''a'') [] (js ''a'')
   \<and> \<not> sublist (js ''a'') (js ''y'')
   \<and> applyCustomPatches (js ''xaay'') [\<lparr>old = js ''a'', newVal = js ''aa''\<rparr>]
       = Some (js ''xaaaay'')
   \<and> applyCustomPatches (js ''xay'') [\<lparr>old = js ''a'', newVal = js ''aa''\<rparr>]
       = Some (js ''xaay'')
   \<and> applyCustomPatches (js ''a'') [\<lparr>old = js ''a'', newVal = js ''aa''\<rparr>] = Some (js ''aa'')"
proof -
  let ?rule = "\<lparr>old = js ''a'', newVal = js ''aa''\<rparr>"
  note one_pass = applyCustomPatches_one_pass_per_rule
          [where rule = ?rule and segments = "[js ''x'', []]" and lastSegment = "js ''y''"
             and segment = "js ''x''" and rest = "js ''y''"]
  have h1: "old ?rule \<noteq> []" and h2: "DOLLAR \<notin> set (newVal ?rule)"
    by (simp_all add: js_def DOLLAR_def)
  have h3: "noMatchStartsIn (js ''a'') (js ''x'') (js ''a'')"
    and h4: "noMatchStartsIn (js ''a'') [] (js ''a'')"
    and h5: "\<not> sublist (js ''a'') (js ''y'')"
    by (simp_all add: js_def sublist_code)
  from h3 h4 have h6: "\<forall>segment \<in> set [js ''x'', []].
      noMatchStartsIn (old ?rule) segment (old ?rule)" by simp
  from h5 have h7: "\<not> sublist (old ?rule) (js ''y'')" by simp
  from h3 have h8: "noMatchStartsIn (old ?rule) (js ''x'') (old ?rule)" by simp
  have "applyCustomPatches
          (concat (map (\<lambda>segment. segment @ old ?rule) [js ''x'', []]) @ js ''y'') [?rule]
        = Some (concat (map (\<lambda>segment. segment @ newVal ?rule) [js ''x'', []]) @ js ''y'')"
    using one_pass h1 h2 h6 h7 by blast
  then have many: "applyCustomPatches (js ''xaay'') [?rule] = Some (js ''xaaaay'')"
    by (simp add: js_def)
  have "applyCustomPatches (js ''x'' @ old ?rule @ js ''y'') [?rule]
        = Some (js ''x'' @ getSubstitution (old ?rule) (js ''x'') (js ''y'') (newVal ?rule)
                  @ js ''y'')"
    using one_pass h1 h8 h7 by blast
  then have one: "applyCustomPatches (js ''xay'') [?rule] = Some (js ''xaay'')"
    by (simp add: js_def DOLLAR_def)
  have self: "applyCustomPatches (js ''a'') [?rule] = Some (js ''aa'')"
    using one_pass by blast
  from h1 h2 h3 h4 h5 many one self show ?thesis by blast
qed

lemma String_replace_no_occurrence:
  "\<not> sublist regex input \<Longrightarrow> String_replace regex template input = input"
  by (simp add: String_replace_def replaceFrom_no_occurrence)

lemma applyCustomPatches_no_occurrence:
  "\<not> containsOld patchRules input \<Longrightarrow> applyCustomPatches input patchRules = Some input"
  by (induction patchRules)
     (simp_all add: containsOld_def RegExp_escapeRegExp String_replace_no_occurrence)

text \<open>
  Claim C9 as stated: when no rule's \<open>newVal\<close> contains a rule's \<open>old\<close>, applying the
  rules twice gives the same as applying them once. It fails: with the single rule
  \<open>ab\<close> to \<open>a\<close>, the text \<open>abb\<close> becomes \<open>ab\<close>, where the inserted \<open>a\<close> and the \<open>b\<close> that
  follows it form a new occurrence of \<open>ab\<close>, and a second application gives \<open>a\<close>.
\<close>

theorem applyCustomPatches_not_idempotent:
  "\<not> reintroducesOld [\<lparr>old = js ''ab'', newVal = js ''a''\<rparr>]
   \<and> applyCustomPatches (js ''abb'') [\<lparr>old = js ''ab'', newVal = js ''a''\<rparr>] = Some (js ''ab'')
   \<and> applyTwice (js ''abb'') [\<lparr>old = js ''ab'', newVal = js ''a''\<rparr>] = Some (js ''a'')"
  by (simp add: reintroducesOld_def containsOld_def applyTwice_def apply_defs sublist_code)

text \<open>
  Claim C9, amended: when the result of the first application contains no rule's
  \<open>old\<close> as a substring, applying the rules to it again returns it unchanged.
\<close>

theorem applyCustomPatches_idempotent_when_no_old_left:
  "applyCustomPatches input patchRules = Some once \<Longrightarrow> \<not> containsOld patchRules once \<Longrightarrow>
     applyTwice input patchRules = applyCustomPatches input patchRules"
  by (simp add: applyTwice_def applyCustomPatches_no_occurrence)

theorem applyCustomPatches_idempotent_when_no_old_left_witness:
  "applyCustomPatches (js ''cat'') [\<lparr>old = js ''cat'', newVal = js ''dog''\<rparr>] = Some (js ''dog'')
   \<and> \<not> containsOld [\<lparr>old = js ''cat'', newVal = js ''dog''\<rparr>] (js ''dog'')
   \<and> applyTwice (js ''cat'') [\<lparr>old = js ''cat'', newVal = js ''dog''\<rparr>]
       = applyCustomPatches (js ''cat'') [\<lparr>old = js ''cat'', newVal = js ''dog''\<rparr>]"
proof -
  have a: "applyCustomPatches (js ''cat'') [\<lparr>old = js ''cat'', newVal = js ''dog''\<rparr>] = Some (js ''dog'')"
    by (simp add: apply_defs)
  have b: "\<not> containsOld [\<lparr>old = js ''cat'', newVal = js ''dog''\<rparr>] (js ''dog'')"
    by (simp add: containsOld_def js_def sublist_code)
  show ?thesis
    using a b applyCustomPatches_idempotent_when_no_old_left [OF a b] by simp
qed

subsection \<open>The conversion adapter\<close>

lemma convertText_engine_missing:
  "input \<noteq> [] \<Longrightarrow> getOpenCC g = None \<Longrightarrow>
     convertText g input type = ([Warn_OpenCC_not_found], Inr input)"
  by (simp add: convertText_def)

text \<open>
  Claim C6: with the engine absent, converting a non-empty text logs a warning and
  returns the text unchanged, in both utility modules. The first module does so on
  \<open>abc\<close>; the second one reads the unbound identifier and rejects with a
  ReferenceError, without a warning.
\<close>

theorem convertText_declared_rejects_when_engine_absent:
  "convertText engineAbsent (js ''abc'') TO_SIMPLIFIED = ([Warn_OpenCC_not_found], Inr (js ''abc''))
   \<and> convertText_declared engineAbsent (js ''abc'') TO_SIMPLIFIED = ([], Inl ReferenceError)"
  by (simp add: convertText_def convertText_declared_def getOpenCC_def engineAbsent_def js_def)

subsection \<open>Cloud synchronisation\<close>

lemma finalPatches_cases:
  "finalPatches JSON_parse body =
     (case JSON_parse body of
        Some (JObject props) \<Rightarrow>
          (case map_of props (js ''patches'') of
             Some v \<Rightarrow> if truthy v then v else JString body
           | None \<Rightarrow> JString body)
      | _ \<Rightarrow> JString body)"
  by (simp add: finalPatches_def split: option.splits jsvalue.splits)

lemma finalPatches_examples:
  "JSON_parse body = Some (JObject [(js ''patches'', JString (js ''x=y''))]) \<Longrightarrow>
     finalPatches JSON_parse body = JString (js ''x=y'')"
  "JSON_parse body = None \<Longrightarrow> finalPatches JSON_parse body = JString body"
  by (simp_all add: finalPatches_def js_def)

text \<open>
  Claim C7: when the body parses as JSON and has a \<open>patches\<close> field, the rule text is
  the value of that field, also when it is the empty string. The code takes the field
  only when it is truthy: for a body that parses to an object whose \<open>patches\<close> is the
  empty string, the rule text is the raw body.
\<close>

theorem finalPatches_empty_patches_field:
  \<open>JSON_parse (js ''{"patches":""}'') = Some (JObject [(js ''patches'', JString [])]) \<Longrightarrow>
     finalPatches JSON_parse (js ''{"patches":""}'') = JString (js ''{"patches":""}'')\<close>
  by (simp add: finalPatches_def)

theorem finalPatches_empty_patches_field_witness:
  \<open>(\<lambda>body. Some (JObject [(js ''patches'', JString [])])) (js ''{"patches":""}'')
       = Some (JObject [(js ''patches'', JString [])])
   \<and> finalPatches (\<lambda>body. Some (JObject [(js ''patches'', JString [])])) (js ''{"patches":""}'')
       = JString (js ''{"patches":""}'')\<close>
  using finalPatches_empty_patches_field
          [of \<open>\<lambda>body. Some (JObject [(js ''patches'', JString [])])\<close>]
  by simp

lemma fetchRemoteRules_failed:
  "requestFailed fetched \<Longrightarrow> \<exists>e. fetchRemoteRules JSON_parse fetched = Inl e"
  by (auto simp: requestFailed_def fetchRemoteRules_def isl_def split: sum.splits)

text \<open>
  Claim C8: when the request fails (a rejected \<open>fetch\<close>, a status that is not a
  success, an unreadable body), the fetch of the remote rules ends in an exception
  rather than a value, the stored patch text is unchanged, and the handler adds an
  error toast unless the call is silent.
\<close>

theorem syncFromCloud_failure_keeps_patches:
  assumes "url \<noteq> []" and "requestFailed (fetch url)"
  shows "(\<exists>e. fetchRemoteRules JSON_parse (fetch url) = Inl e)
     \<and> patches (syncFromCloud JSON_parse fetch newId (Some url) silent st) = patches st
     \<and> toasts (syncFromCloud JSON_parse fetch newId (Some url) silent st)
         = (if silent then toasts st
            else toasts st @ [\<lparr>id_toast = newId, type_toast = error, message = Cloud_download_failed\<rparr>])"
proof -
  from assms(2) obtain e where "fetchRemoteRules JSON_parse (fetch url) = Inl e"
    using fetchRemoteRules_failed by blast
  with assms(1) show ?thesis
    by (simp add: syncFromCloud_def addToast_def)
qed

theorem syncFromCloud_failure_keeps_patches_witness:
  "js ''u'' \<noteq> [] \<and> requestFailed ((\<lambda>url. Inr \<lparr>ok = False, bodyText = Inr []\<rparr>) (js ''u''))
   \<and> patches (syncFromCloud (\<lambda>body. None) (\<lambda>url. Inr \<lparr>ok = False, bodyText = Inr []\<rparr>) 0
         (Some (js ''u'')) False \<lparr>patches = JString (js ''a=b''), toasts = []\<rparr>)
       = JString (js ''a=b'')
   \<and> toasts (syncFromCloud (\<lambda>body. None) (\<lambda>url. Inr \<lparr>ok = False, bodyText = Inr []\<rparr>) 0
         (Some (js ''u'')) False \<lparr>patches = JString (js ''a=b''), toasts = []\<rparr>)
       = [\<lparr>id_toast = 0, type_toast = error, message = Cloud_download_failed\<rparr>]"
proof -
  have a: "js ''u'' \<noteq> []" by (simp add: js_def)
  have b: "requestFailed ((\<lambda>url. Inr \<lparr>ok = False, bodyText = Inr []\<rparr>) (js ''u''))"
    by (simp add: requestFailed_def)
  show ?thesis
    using a b syncFromCloud_failure_keeps_patches [OF a b, of "\<lambda>body. None" 0 False
        "\<lparr>patches = JString (js ''a=b''), toasts = []\<rparr>"]
    by simp
qed

end
